theory Spec2Isabelle
  imports Complex_Main "HOL-Library.Sublist" "HOL-Library.Multiset"
begin

section \<open>The task scheduler of \<^verbatim>\<open>cors_config.py\<close>\<close>

text \<open>
  The development embeds the class \<^verbatim>\<open>TaskScheduler\<close>: the task objects, the
  submission \<^verbatim>\<open>add_task\<close>, the built-in task bodies \<^verbatim>\<open>execute_task\<close> and one
  iteration of the loop of \<^verbatim>\<open>worker_function\<close>, followed by the loop itself.

  What the program takes from its environment is a parameter of the model:
  \<^item> a clock \<open>clk :: nat \<Rightarrow> time\<close>: \<open>clk i\<close> is the value returned by the \<open>i\<close>-th
    call of \<^verbatim>\<open>time.time()\<close> made during the operation at hand (counted from 0).
    Python's floats are read as real numbers, so \<^verbatim>\<open>time.time() + delay\<close> is exact;
  \<^item> \<open>randint a b\<close>: the value \<^verbatim>\<open>random.randint(a, b)\<close> returns in the call at hand;
  \<^item> the task body: \<^verbatim>\<open>worker_function\<close> calls \<^verbatim>\<open>self.execute_task(task)\<close> inside
    \<^verbatim>\<open>try ... except Exception\<close>; the model takes the body as a function from the
    task to either the text of the exception it raises (\<open>Inl\<close>) or the result it
    returns (\<open>Inr\<close>), so that the \<^verbatim>\<open>except\<close> branch is a branch of the model.
    The built-in body is \<open>execute_task\<close> below.
  The model follows one worker thread: an iteration of the loop is one function
  application, and its three parts (the lines before the inner \<^verbatim>\<open>try\<close>, the
  \<^verbatim>\<open>try/except\<close>, the \<^verbatim>\<open>finally\<close>) are separate definitions, so that the states
  in between can be named.
\<close>

subsection \<open>Python values\<close>

type_synonym time = real

text \<open>\<^verbatim>\<open>int(x)\<close> of a float: truncation towards zero.\<close>

definition py_int :: "real \<Rightarrow> int" where
  "py_int x = (if x < 0 then \<lceil>x\<rceil> else \<lfloor>x\<rfloor>)"

text \<open>
  The decimal text of an integer, as an f-string \<^verbatim>\<open>{n}\<close> prints it. \<open>digit\<close> is
  applied to numbers below 10 only.
\<close>

definition digit :: "nat \<Rightarrow> char" where
  "digit d = ''0123456789'' ! d"

function str_nat :: "nat \<Rightarrow> string" where
  "str_nat n = (if n < 10 then [digit n] else str_nat (n div 10) @ [digit (n mod 10)])"
  by pat_completeness auto
termination
  by (relation "measure id") auto

declare str_nat.simps [simp del]

definition str_int :: "int \<Rightarrow> string" where
  "str_int i = (if i < 0 then CHR ''-'' # str_nat (nat (- i)) else str_nat (nat i))"

text \<open>\<^verbatim>\<open>sub in s\<close> on strings: \<open>sub\<close> occurs in \<open>s\<close> as a contiguous substring.\<close>

fun str_contains :: "string \<Rightarrow> string \<Rightarrow> bool" where
  "str_contains sub [] = (sub = [])"
| "str_contains sub (c # cs) = (prefix sub (c # cs) \<or> str_contains sub cs)"

text \<open>
  \<^verbatim>\<open>collections.deque(maxlen=n)\<close>, oldest element first: \<^verbatim>\<open>append\<close> on a full deque
  discards the oldest element.
\<close>

definition deque_append :: "nat \<Rightarrow> 'a list \<Rightarrow> 'a \<Rightarrow> 'a list" where
  "deque_append maxlen d x = (let d' = d @ [x] in drop (length d' - maxlen) d')"

subsection \<open>Tasks\<close>

text \<open>
  \<^verbatim>\<open>TaskScheduler.Task\<close>. The status is the Python string. \<open>worker_id\<close> is the
  attribute the worker adds at dispatch (absent before: \<open>None\<close>).
\<close>

record task =
  task_id :: string
  name :: string
  priority :: int
  scheduled_time :: time
  created_at :: time
  started_at :: "time option"
  completed_at :: "time option"
  status :: string
  result :: "string option"
  error :: "string option"
  retries :: int
  max_retries :: int
  worker_id :: "nat option"

text \<open>
  \<^verbatim>\<open>Task.__init__\<close>. \<^verbatim>\<open>scheduled_time or time.time()\<close> reads the clock when the
  argument is \<^verbatim>\<open>None\<close> or \<^verbatim>\<open>0.0\<close>; \<open>created_at\<close> is the next reading.
\<close>

definition Task_init :: "(nat \<Rightarrow> time) \<Rightarrow> string \<Rightarrow> string \<Rightarrow> int \<Rightarrow> time option \<Rightarrow> task" where
  "Task_init clk tid nm prio sched =
     (let given = (case sched of None \<Rightarrow> None | Some x \<Rightarrow> if x = 0 then None else Some x)
      in \<lparr> task_id = tid,
           name = nm,
           priority = prio,
           scheduled_time = (case given of None \<Rightarrow> clk 0 | Some x \<Rightarrow> x),
           created_at = (case given of None \<Rightarrow> clk 1 | Some x \<Rightarrow> clk 0),
           started_at = None,
           completed_at = None,
           status = ''pending'',
           result = None,
           error = None,
           retries = 0,
           max_retries = 3,
           worker_id = None \<rparr>)"

text \<open>\<^verbatim>\<open>Task.to_dict\<close>: the dictionary, one field per key.\<close>

record task_dict =
  d_id :: string
  d_name :: string
  d_priority :: int
  d_scheduled :: time
  d_status :: string
  d_retries :: int
  d_duration :: "time option"

definition to_dict :: "task \<Rightarrow> task_dict" where
  "to_dict t =
     \<lparr> d_id = task_id t,
       d_name = name t,
       d_priority = priority t,
       d_scheduled = scheduled_time t,
       d_status = status t,
       d_retries = retries t,
       d_duration =
         (case (completed_at t, started_at t) of
            (Some c, Some b) \<Rightarrow> if c \<noteq> 0 \<and> b \<noteq> 0 then Some (c - b) else None
          | _ \<Rightarrow> None) \<rparr>"

text \<open>An element of \<^verbatim>\<open>completed_tasks\<close>: keys \<^verbatim>\<open>task\<close>, \<^verbatim>\<open>result\<close>, \<^verbatim>\<open>worker\<close>.\<close>

record completed_entry =
  c_task :: task_dict
  c_result :: string
  c_worker :: nat

subsection \<open>The priority queue\<close>

text \<open>
  \<^verbatim>\<open>queue.PriorityQueue\<close> holds tuples \<^verbatim>\<open>(priority, task)\<close> and yields a least one.
  Python compares the tuples by their first components and, when these are equal,
  by \<^verbatim>\<open>Task.__lt__\<close>, that is by the tasks' \<open>priority\<close> fields.

  The queue is the list of its entries in the order of their insertion; \<open>get\<close>
  removes the first entry that no other entry is less than. Which of several
  equal entries the heap of the library yields is not fixed by its contract; the
  theorems below speak of the entry that \<open>queue_get\<close> returns, of which they
  use that it is in the queue and that no entry is less, and the concrete runs
  have no two equal entries.
\<close>

type_synonym entry = "int \<times> task"

definition entry_less :: "entry \<Rightarrow> entry \<Rightarrow> bool" where
  "entry_less a b =
     (fst a < fst b \<or> (fst a = fst b \<and> priority (snd a) < priority (snd b)))"

fun queue_min :: "entry \<Rightarrow> entry list \<Rightarrow> entry" where
  "queue_min m [] = m"
| "queue_min m (x # xs) = queue_min (if entry_less x m then x else m) xs"

definition queue_put :: "entry \<Rightarrow> entry list \<Rightarrow> entry list" where
  "queue_put x q = q @ [x]"

text \<open>
  \<open>None\<close>: the queue is empty, and \<^verbatim>\<open>get(timeout=1)\<close> raises \<^verbatim>\<open>queue.Empty\<close>.
  The entry taken is removed once; two entries of the program are never equal as
  values, their tasks having different ids.
\<close>

definition queue_get :: "entry list \<Rightarrow> (entry \<times> entry list) option" where
  "queue_get q =
     (case q of
        [] \<Rightarrow> None
      | x # xs \<Rightarrow> (let m = queue_min x xs in Some (m, remove1 m q)))"

subsection \<open>The scheduler\<close>

text \<open>
  The fields of \<^verbatim>\<open>TaskScheduler\<close>. \<open>running_tasks\<close> is the dictionary from task id
  to task; the program reads its keys only (membership, deletion, length), and
  the model stores the task as it is at the insertion. The list of threads
  \<^verbatim>\<open>workers\<close> is not a part of the state.
\<close>

record scheduler =
  task_queue :: "entry list"
  completed_tasks :: "completed_entry list"
  failed_tasks :: "task_dict list"
  running_tasks :: "string \<rightharpoonup> task"
  running :: bool
  task_counter :: int
  worker_count :: nat

definition TaskScheduler_init :: scheduler where
  "TaskScheduler_init =
     \<lparr> task_queue = [],
       completed_tasks = [],
       failed_tasks = [],
       running_tasks = Map.empty,
       running = True,
       task_counter = 0,
       worker_count = 3 \<rparr>"

text \<open>
  \<^verbatim>\<open>add_task(name, priority, delay)\<close>; the defaults \<^verbatim>\<open>priority=5\<close>, \<^verbatim>\<open>delay=0\<close> are
  the caller's to pass. Clock readings: 0 for the id, 1 for the scheduled time,
  from 2 on inside \<^verbatim>\<open>Task.__init__\<close>. The result is the returned id and the new
  state; no line of the function raises on numbers.
\<close>

definition add_task ::
  "(nat \<Rightarrow> time) \<Rightarrow> scheduler \<Rightarrow> string \<Rightarrow> int \<Rightarrow> real \<Rightarrow> string \<times> scheduler" where
  "add_task clk s nm prio delay =
     (let counter = task_counter s + 1;
          tid = ''task_'' @ str_int counter @ ''_'' @ str_int (py_int (clk 0));
          sched = clk 1 + delay;
          t = Task_init (\<lambda>i. clk (i + 2)) tid nm prio (Some sched)
      in (tid, s\<lparr>task_counter := counter,
                task_queue := queue_put (prio, t) (task_queue s)\<rparr>))"

subsection \<open>Task bodies\<close>

type_synonym handler = "task \<Rightarrow> string + string"

text \<open>
  \<^verbatim>\<open>execute_task\<close>: the chain of \<^verbatim>\<open>if/elif\<close> on the task's name, in the source's
  order. The sleeps change nothing but the clock.
\<close>

definition execute_task :: "(int \<Rightarrow> int \<Rightarrow> int) \<Rightarrow> handler" where
  "execute_task randint t =
     (let task_type = name t in
      if str_contains ''backup'' task_type then
        Inr (''Backup completed: '' @ str_int (randint 100 1000) @ '' MB'')
      else if str_contains ''cleanup'' task_type then
        Inr (''Cleaned: '' @ str_int (randint 10 500) @ '' files'')
      else if str_contains ''sync'' task_type then
        Inr (''Synced: '' @ str_int (randint 50 5000) @ '' objects'')
      else if str_contains ''index'' task_type then
        Inr (''Indexed: '' @ str_int (randint 1000 50000) @ '' documents'')
      else if str_contains ''generate'' task_type then
        Inr (''Generated: '' @ str_int (randint 1 20) @ '' reports'')
      else if str_contains ''send'' task_type then
        Inr (''Sent: '' @ str_int (randint 1 100) @ '' notifications'')
      else if str_contains ''process'' task_type then
        Inr (''Processed: '' @ str_int (randint 5 500) @ '' webhooks'')
      else if str_contains ''archive'' task_type then
        Inr (''Archived: '' @ str_int (randint 50 2000) @ '' files'')
      else if str_contains ''validate'' task_type then
        Inr (''Validated: '' @ str_int (randint 5 50) @ '' schemas'')
      else if str_contains ''compress'' task_type then
        Inr (''Compressed: '' @ str_int (randint 20 500) @ '' assets'')
      else
        Inr (''Executed: '' @ name t))"

text \<open>The names that \<^verbatim>\<open>execute_task\<close> has a branch of its own for.\<close>

definition builtin_keywords :: "string list" where
  "builtin_keywords =
     [''backup'', ''cleanup'', ''sync'', ''index'', ''generate'', ''send'',
      ''process'', ''archive'', ''validate'', ''compress'']"

subsection \<open>One iteration of the worker's loop\<close>

text \<open>
  What an iteration did: \<^verbatim>\<open>get\<close> timed out on an empty queue; the entry taken was
  not yet due and was put back; or the task was handed to the task body (the
  event carries the task as the body receives it).
\<close>

datatype event = Queue_empty | Deferred task | Dispatched task

text \<open>Lines 85 to 89: the task is marked running and entered in \<open>running_tasks\<close>.\<close>

definition start_task :: "(nat \<Rightarrow> time) \<Rightarrow> nat \<Rightarrow> task \<Rightarrow> task" where
  "start_task clk w t = t\<lparr>status := ''running'', started_at := Some (clk 1), worker_id := Some w\<rparr>"

definition worker_dispatch :: "task \<Rightarrow> scheduler \<Rightarrow> scheduler" where
  "worker_dispatch t1 s = s\<lparr>running_tasks := (running_tasks s)(task_id t1 \<mapsto> t1)\<rparr>"

text \<open>
  Lines 91 to 112, the inner \<^verbatim>\<open>try/except\<close>: \<open>key\<close> is the local variable
  \<^verbatim>\<open>priority\<close>, the first component of the tuple that \<^verbatim>\<open>get\<close> returned.
\<close>

definition worker_attempt ::
  "handler \<Rightarrow> (nat \<Rightarrow> time) \<Rightarrow> nat \<Rightarrow> int \<Rightarrow> task \<Rightarrow> scheduler \<Rightarrow> scheduler" where
  "worker_attempt h clk w key t1 s =
     (case h t1 of
        Inr res \<Rightarrow>
          (let t2 = t1\<lparr>status := ''completed'', completed_at := Some (clk 2), result := Some res\<rparr>
           in s\<lparr>completed_tasks :=
                  deque_append 1000 (completed_tasks s)
                    \<lparr>c_task = to_dict t2, c_result = res, c_worker = w\<rparr>\<rparr>)
      | Inl e \<Rightarrow>
          (let t2 = t1\<lparr>status := ''failed'', error := Some e, retries := retries t1 + 1\<rparr>
           in if retries t2 < max_retries t2 then
                (let t3 = t2\<lparr>priority := max 1 (priority t2 - 1)\<rparr>
                 in s\<lparr>task_queue := queue_put (key, t3) (task_queue s)\<rparr>)
              else
                s\<lparr>failed_tasks := deque_append 500 (failed_tasks s) (to_dict t2)\<rparr>))"

text \<open>Lines 114 to 116, the \<^verbatim>\<open>finally\<close> clause.\<close>

definition worker_finally :: "task \<Rightarrow> scheduler \<Rightarrow> scheduler" where
  "worker_finally t s =
     (if task_id t \<in> dom (running_tasks s)
      then s\<lparr>running_tasks := (running_tasks s)(task_id t := None)\<rparr>
      else s)"

text \<open>
  The body of \<^verbatim>\<open>while self.running\<close>, lines 77 to 121. \<^verbatim>\<open>task_done()\<close> only
  counts down the queue's unfinished puts and is left out.
\<close>

definition worker_function_step ::
  "handler \<Rightarrow> (nat \<Rightarrow> time) \<Rightarrow> nat \<Rightarrow> scheduler \<Rightarrow> event \<times> scheduler" where
  "worker_function_step h clk w s =
     (case queue_get (task_queue s) of
        None \<Rightarrow> (Queue_empty, s)
      | Some ((key, t), rest) \<Rightarrow>
          if scheduled_time t > clk 0 then
            (Deferred t, s\<lparr>task_queue := queue_put (key, t) rest\<rparr>)
          else
            (let t1 = start_task clk w t;
                 s1 = worker_dispatch t1 (s\<lparr>task_queue := rest\<rparr>);
                 s2 = worker_attempt h clk w key t1 s1
             in (Dispatched t1, worker_finally t1 s2)))"

text \<open>
  \<^verbatim>\<open>worker_function\<close>: the loop, for the \<open>n\<close> iterations it makes before another
  thread clears \<^verbatim>\<open>self.running\<close>; \<open>clks i\<close> is the clock of iteration \<open>i\<close> and
  \<open>hs i\<close> the task body as it behaves in iteration \<open>i\<close>. The result is the list
  of the iterations' events and the final state.
\<close>

fun worker_function ::
  "(nat \<Rightarrow> handler) \<Rightarrow> (nat \<Rightarrow> nat \<Rightarrow> time) \<Rightarrow> nat \<Rightarrow> nat \<Rightarrow> scheduler \<Rightarrow> event list \<times> scheduler" where
  "worker_function hs clks w 0 s = ([], s)"
| "worker_function hs clks w (Suc n) s =
     (if \<not> running s then ([], s)
      else
        (let (e, s1) = worker_function_step (hs 0) (clks 0) w s;
             (es, s2) = worker_function (\<lambda>i. hs (Suc i)) (\<lambda>i. clks (Suc i)) w n s1
         in (e # es, s2)))"

text \<open>\<^verbatim>\<open>stop_workers\<close> clears the flag; joining the threads changes no field.\<close>

definition stop_workers :: "scheduler \<Rightarrow> scheduler" where
  "stop_workers s = s\<lparr>running := False\<rparr>"

subsection \<open>States of the scheduler\<close>

text \<open>
  The states between two operations: the initial state, and from there any
  submission, any complete iteration of the worker's loop (with any task body and
  any clock) and the stop.
\<close>

inductive reachable :: "scheduler \<Rightarrow> bool" where
  init: "reachable TaskScheduler_init"
| submit: "reachable s \<Longrightarrow> reachable (snd (add_task clk s nm prio delay))"
| iteration: "reachable s \<Longrightarrow> reachable (snd (worker_function_step h clk w s))"
| stop: "reachable s \<Longrightarrow> reachable (stop_workers s)"



text \<open>A task name that one of the keyword branches of \<^verbatim>\<open>execute_task\<close> takes.\<close>

definition has_branch :: "string \<Rightarrow> bool" where
  "has_branch nm = list_ex (\<lambda>kw. str_contains kw nm) builtin_keywords"

text \<open>The number of times an event list hands a task to the task body.\<close>

fun is_dispatch :: "event \<Rightarrow> bool" where
  "is_dispatch (Dispatched t) = True"
| "is_dispatch e = False"

definition dispatch_count :: "event list \<Rightarrow> nat" where
  "dispatch_count es = length (filter is_dispatch es)"

subsection \<open>Concrete runs\<close>

text \<open>A clock that stands at 100, a random source that returns its lower bound,
  a task body that always raises, and schedulers with one submitted task.\<close>

definition ex_clock :: "nat \<Rightarrow> time" where
  "ex_clock i = 100"

definition ex_randint :: "int \<Rightarrow> int \<Rightarrow> int" where
  "ex_randint a b = a"

definition ex_raises :: handler where
  "ex_raises t = Inl ''boom''"

definition ex_backup :: scheduler where
  "ex_backup = snd (add_task ex_clock TaskScheduler_init ''backup_database'' 5 0)"

definition ex_health :: scheduler where
  "ex_health = snd (add_task ex_clock TaskScheduler_init ''health_check'' 5 0)"

definition ex_job :: scheduler where
  "ex_job = snd (add_task ex_clock TaskScheduler_init ''job'' 5 0)"

text \<open>The task of \<open>ex_job\<close> as the task body receives it at its first dispatch.\<close>

definition ex_job_started :: task where
  "ex_job_started = start_task ex_clock 0 (snd (hd (task_queue ex_job)))"



text \<open>\<open>ex_job\<close> after \<open>n\<close> iterations of a worker whose task body always raises.\<close>

definition ex_job_failed :: "nat \<Rightarrow> scheduler" where
  "ex_job_failed n = snd (worker_function (\<lambda>i. ex_raises) (\<lambda>i. ex_clock) 0 n ex_job)"

text \<open>Two submissions at time 100: priority 1 due at 150, then priority 5 due at once.\<close>

definition ex_two :: scheduler where
  "ex_two =
     snd (add_task ex_clock
            (snd (add_task ex_clock TaskScheduler_init ''later'' 1 50)) ''now'' 5 0)"

text \<open>A task submitted at time 100 with a delay of 2, and a worker whose
  iteration \<open>i\<close> reads the clock at \<open>100 + 3 * i\<close>.\<close>

definition ex_delayed :: scheduler where
  "ex_delayed = snd (add_task ex_clock TaskScheduler_init ''job'' 5 2)"

definition ex_clocks :: "nat \<Rightarrow> nat \<Rightarrow> time" where
  "ex_clocks i j = 100 + 3 * real i"

text \<open>A clock that reads 102 and then goes back to 50.\<close>

definition ex_clock_back :: "nat \<Rightarrow> time" where
  "ex_clock_back j = (if j = 0 then 102 else 50)"

subsection \<open>An invariant of the queued entries\<close>

text \<open>
  What holds of every entry \<open>(key, task)\<close> waiting in the queue: the task has
  failed fewer than \<open>max_retries = 3\<close> times; its priority is the key it was
  submitted under, lowered once per failure and not below 1; its status is
  \<^verbatim>\<open>pending\<close> before the first failure and \<^verbatim>\<open>failed\<close> after it.
\<close>

definition queued_entry_inv :: "entry \<Rightarrow> bool" where
  "queued_entry_inv e =
     (max_retries (snd e) = 3 \<and> 0 \<le> retries (snd e) \<and> retries (snd e) < 3 \<and>
      priority (snd e) =
        (if retries (snd e) = 0 then fst e else max 1 (fst e - retries (snd e))) \<and>
      status (snd e) = (if retries (snd e) = 0 then ''pending'' else ''failed''))"

subsection \<open>An invariant of the task ids\<close>



section \<open>Properties\<close>

subsection \<open>The queue yields a least entry\<close>

lemma queue_min_mem: "queue_min m xs \<in> set (m # xs)"
  by (induction xs arbitrary: m) auto

lemma queue_min_keeps: "\<not> entry_less y m \<Longrightarrow> \<not> entry_less y (queue_min m xs)"
  by (induction xs arbitrary: m) (auto simp: entry_less_def)

lemma queue_min_least: "x \<in> set xs \<Longrightarrow> \<not> entry_less x (queue_min m xs)"
proof (induction xs arbitrary: m)
  case Nil
  then show ?case by simp
next
  case (Cons a xs)
  show ?case
  proof (cases "x = a")
    case True
    have "\<not> entry_less a (if entry_less a m then a else m)"
      by (auto simp: entry_less_def)
    then show ?thesis using True by (simp add: queue_min_keeps)
  next
    case False
    then show ?thesis using Cons by auto
  qed
qed

lemma queue_get_Nil: "queue_get q = None \<longleftrightarrow> q = []"
  by (simp add: queue_get_def Let_def split: list.splits)

lemma queue_get_SomeD:
  assumes "queue_get q = Some (m, rest)"
  shows "m \<in> set q" and "rest = remove1 m q" and "\<forall>x\<in>set q. \<not> entry_less x m"
    and "mset q = add_mset m (mset rest)" and "set rest \<subseteq> set q"
proof -
  from assms obtain x xs where q: "q = x # xs" and m: "m = queue_min x xs"
    and r: "rest = remove1 m q"
    by (auto simp: queue_get_def Let_def split: list.splits)
  show 1: "m \<in> set q" using q m queue_min_mem [of x xs] by simp
  show "rest = remove1 m q" by (rule r)
  show "\<forall>x\<in>set q. \<not> entry_less x m"
  proof
    fix y assume "y \<in> set q"
    then consider "y = x" | "y \<in> set xs" using q by auto
    then show "\<not> entry_less y m"
    proof cases
      case 1
      have "\<not> entry_less x x" by (simp add: entry_less_def)
      then show ?thesis using 1 m queue_min_keeps by blast
    next
      case 2
      then show ?thesis using m queue_min_least by blast
    qed
  qed
  show "mset q = add_mset m (mset rest)" using 1 r by simp
  show "set rest \<subseteq> set q" using r by (simp add: set_remove1_subset)
qed

lemma queue_get_single: "queue_get [x] = Some (x, [])"
  by (simp add: queue_get_def)

subsection \<open>The three outcomes of an iteration\<close>

lemma step_empty:
  "task_queue s = [] \<Longrightarrow> worker_function_step h clk w s = (Queue_empty, s)"
  by (simp add: worker_function_step_def queue_get_def)

lemma step_deferred:
  "queue_get (task_queue s) = Some ((key, t), rest) \<Longrightarrow> clk 0 < scheduled_time t \<Longrightarrow>
   worker_function_step h clk w s = (Deferred t, s\<lparr>task_queue := rest @ [(key, t)]\<rparr>)"
  by (simp add: worker_function_step_def queue_put_def)

lemma step_eligible:
  "queue_get (task_queue s) = Some ((key, t), rest) \<Longrightarrow> scheduled_time t \<le> clk 0 \<Longrightarrow>
   worker_function_step h clk w s =
     (Dispatched (start_task clk w t),
      worker_finally (start_task clk w t)
        (worker_attempt h clk w key (start_task clk w t)
           (worker_dispatch (start_task clk w t) (s\<lparr>task_queue := rest\<rparr>))))"
  by (simp add: worker_function_step_def Let_def)

lemma step_dispatchD:
  assumes "fst (worker_function_step h clk w s) = Dispatched t1"
  shows "\<exists>key t rest. queue_get (task_queue s) = Some ((key, t), rest) \<and> scheduled_time t \<le> clk 0
     \<and> t1 = start_task clk w t
     \<and> snd (worker_function_step h clk w s) =
         worker_finally t1 (worker_attempt h clk w key t1 (worker_dispatch t1 (s\<lparr>task_queue := rest\<rparr>)))"
  using assms
  by (auto simp: worker_function_step_def Let_def split: option.splits prod.splits if_splits)

lemma start_task_fields [simp]:
  "task_id (start_task clk w t) = task_id t"
  "name (start_task clk w t) = name t"
  "priority (start_task clk w t) = priority t"
  "scheduled_time (start_task clk w t) = scheduled_time t"
  "retries (start_task clk w t) = retries t"
  "max_retries (start_task clk w t) = max_retries t"
  "status (start_task clk w t) = ''running''"
  "started_at (start_task clk w t) = Some (clk 1)"
  by (simp_all add: start_task_def)

lemma dispatch_fields [simp]:
  "task_queue (worker_dispatch t s) = task_queue s"
  "completed_tasks (worker_dispatch t s) = completed_tasks s"
  "failed_tasks (worker_dispatch t s) = failed_tasks s"
  "running (worker_dispatch t s) = running s"
  "task_counter (worker_dispatch t s) = task_counter s"
  "running_tasks (worker_dispatch t s) = (running_tasks s)(task_id t \<mapsto> t)"
  by (simp_all add: worker_dispatch_def)

lemma finally_fields [simp]:
  "task_queue (worker_finally t s) = task_queue s"
  "completed_tasks (worker_finally t s) = completed_tasks s"
  "failed_tasks (worker_finally t s) = failed_tasks s"
  "running (worker_finally t s) = running s"
  "task_counter (worker_finally t s) = task_counter s"
  "running_tasks (worker_finally t s) = (running_tasks s)(task_id t := None)"
  by (auto simp: worker_finally_def)

lemma attempt_Inr:
  "h t1 = Inr r \<Longrightarrow> worker_attempt h clk w key t1 s =
     s\<lparr>completed_tasks := deque_append 1000 (completed_tasks s)
         \<lparr>c_task = to_dict (t1\<lparr>status := ''completed'', completed_at := Some (clk 2), result := Some r\<rparr>),
          c_result = r, c_worker = w\<rparr>\<rparr>"
  by (simp add: worker_attempt_def Let_def)

lemma attempt_Inl_retry:
  "h t1 = Inl e \<Longrightarrow> retries t1 + 1 < max_retries t1 \<Longrightarrow>
   worker_attempt h clk w key t1 s =
     s\<lparr>task_queue := task_queue s @
         [(key, t1\<lparr>status := ''failed'', error := Some e, retries := retries t1 + 1,
                  priority := max 1 (priority t1 - 1)\<rparr>)]\<rparr>"
  by (simp add: worker_attempt_def Let_def queue_put_def)

lemma attempt_Inl_final:
  "h t1 = Inl e \<Longrightarrow> \<not> retries t1 + 1 < max_retries t1 \<Longrightarrow>
   worker_attempt h clk w key t1 s =
     s\<lparr>failed_tasks := deque_append 500 (failed_tasks s)
         (to_dict (t1\<lparr>status := ''failed'', error := Some e, retries := retries t1 + 1\<rparr>))\<rparr>"
  by (simp add: worker_attempt_def Let_def)

lemma attempt_running_tasks [simp]:
  "running_tasks (worker_attempt h clk w key t1 s) = running_tasks s"
  by (simp add: worker_attempt_def Let_def split: sum.splits)

lemma attempt_running [simp]:
  "running (worker_attempt h clk w key t1 s) = running s"
  by (simp add: worker_attempt_def Let_def split: sum.splits)

subsection \<open>The built-in task bodies\<close>

lemma execute_task_Inr: "\<exists>r. execute_task randint t = Inr r"
  by (simp add: execute_task_def Let_def)

lemma execute_task_default:
  "\<not> has_branch (name t) \<Longrightarrow> execute_task randint t = Inr (''Executed: '' @ name t)"
  by (simp add: has_branch_def builtin_keywords_def execute_task_def Let_def)

text \<open>
  C10. Every branch of \<open>execute_task\<close> returns a result and none raises,
  whatever the task's name and whatever \<^verbatim>\<open>random\<close> draws. So an iteration that
  dispatches a task with the built-in bodies appends the task to
  \<open>completed_tasks\<close>, leaves \<open>failed_tasks\<close> as it was and does not put the
  task back into the queue.
\<close>

theorem builtin_bodies_always_complete:
  assumes "fst (worker_function_step (execute_task randint) clk w s) = Dispatched t1"
  shows "(\<forall>t. \<exists>r. execute_task randint t = Inr r) \<and>
    (\<exists>key t rest r. queue_get (task_queue s) = Some ((key, t), rest) \<and> t1 = start_task clk w t \<and>
       execute_task randint t1 = Inr r \<and>
       completed_tasks (snd (worker_function_step (execute_task randint) clk w s)) =
         deque_append 1000 (completed_tasks s)
           \<lparr>c_task = to_dict (t1\<lparr>status := ''completed'', completed_at := Some (clk 2), result := Some r\<rparr>),
            c_result = r, c_worker = w\<rparr> \<and>
       failed_tasks (snd (worker_function_step (execute_task randint) clk w s)) = failed_tasks s \<and>
       task_queue (snd (worker_function_step (execute_task randint) clk w s)) = rest)"
proof -
  from step_dispatchD [OF assms] obtain key t rest where
    g: "queue_get (task_queue s) = Some ((key, t), rest)" and t1: "t1 = start_task clk w t"
    and s': "snd (worker_function_step (execute_task randint) clk w s) =
         worker_finally t1 (worker_attempt (execute_task randint) clk w key t1
           (worker_dispatch t1 (s\<lparr>task_queue := rest\<rparr>)))"
    by blast
  obtain r where r: "execute_task randint t1 = Inr r" using execute_task_Inr by blast
  show ?thesis
    using g t1 r by (auto simp: s' attempt_Inr execute_task_Inr)
qed

theorem builtin_bodies_always_complete_witness:
  "fst (worker_function_step (execute_task ex_randint) ex_clock 0 ex_backup)
     = Dispatched (start_task ex_clock 0 (snd (hd (task_queue ex_backup)))) \<and>
   failed_tasks (snd (worker_function_step (execute_task ex_randint) ex_clock 0 ex_backup)) = [] \<and>
   task_queue (snd (worker_function_step (execute_task ex_randint) ex_clock 0 ex_backup)) = [] \<and>
   map c_result (completed_tasks (snd (worker_function_step (execute_task ex_randint) ex_clock 0 ex_backup)))
     = [''Backup completed: 100 MB'']"
proof -
  have h: "fst (worker_function_step (execute_task ex_randint) ex_clock 0 ex_backup)
     = Dispatched (start_task ex_clock 0 (snd (hd (task_queue ex_backup))))"
    by code_simp
  have q: "queue_get (task_queue ex_backup) = Some (hd (task_queue ex_backup), [])"
    by code_simp
  have f: "failed_tasks ex_backup = []" by code_simp
  have c: "map c_result (completed_tasks
      (snd (worker_function_step (execute_task ex_randint) ex_clock 0 ex_backup)))
     = [''Backup completed: 100 MB'']" by code_simp
  from builtin_bodies_always_complete [OF h] show ?thesis
    using h q f c by auto
qed

text \<open>
  C3 (as amended). The program has no registry of handlers: a name that none of
  the keyword branches of \<open>execute_task\<close> takes runs the default branch. A due
  task with such a name is dispatched and completes with the result
  \<^verbatim>\<open>Executed: <name>\<close>; its retry count stays as it was (0 at the first
  dispatch), nothing is added to \<open>failed_tasks\<close> and the task is not put back
  into the queue.
\<close>

theorem unknown_name_completes:
  assumes "queue_get (task_queue s) = Some ((key, t), rest)"
    and "scheduled_time t \<le> clk 0"
    and "\<not> has_branch (name t)"
  shows "fst (worker_function_step (execute_task randint) clk w s) = Dispatched (start_task clk w t) \<and>
    (\<exists>c. completed_tasks (snd (worker_function_step (execute_task randint) clk w s)) =
            deque_append 1000 (completed_tasks s) c \<and>
          d_id (c_task c) = task_id t \<and> d_status (c_task c) = ''completed'' \<and>
          d_retries (c_task c) = retries t \<and> c_result c = ''Executed: '' @ name t) \<and>
    failed_tasks (snd (worker_function_step (execute_task randint) clk w s)) = failed_tasks s \<and>
    task_queue (snd (worker_function_step (execute_task randint) clk w s)) = rest"
proof -
  have r: "execute_task randint (start_task clk w t) = Inr (''Executed: '' @ name t)"
    using execute_task_default [of "start_task clk w t" randint] assms(3) by simp
  let ?c = "\<lparr>c_task = to_dict ((start_task clk w t)\<lparr>status := ''completed'',
                 completed_at := Some (clk 2), result := Some (''Executed: '' @ name t)\<rparr>),
             c_result = ''Executed: '' @ name t, c_worker = w\<rparr>"
  have 1: "completed_tasks (snd (worker_function_step (execute_task randint) clk w s)) =
      deque_append 1000 (completed_tasks s) ?c"
    using assms(1,2) r by (simp add: step_eligible attempt_Inr)
  have 2: "d_id (c_task ?c) = task_id t \<and> d_status (c_task ?c) = ''completed'' \<and>
      d_retries (c_task ?c) = retries t \<and> c_result ?c = ''Executed: '' @ name t"
    by (simp add: to_dict_def)
  have 3: "fst (worker_function_step (execute_task randint) clk w s) = Dispatched (start_task clk w t) \<and>
      failed_tasks (snd (worker_function_step (execute_task randint) clk w s)) = failed_tasks s \<and>
      task_queue (snd (worker_function_step (execute_task randint) clk w s)) = rest"
    using assms(1,2) r by (simp add: step_eligible attempt_Inr)
  show ?thesis
    using 1 2 3 by blast
qed

theorem unknown_name_completes_witness:
  "queue_get (task_queue ex_health) = Some (hd (task_queue ex_health), []) \<and>
   scheduled_time (snd (hd (task_queue ex_health))) \<le> ex_clock 0 \<and>
   \<not> has_branch (name (snd (hd (task_queue ex_health)))) \<and>
   retries (snd (hd (task_queue ex_health))) = 0 \<and>
   failed_tasks (snd (worker_function_step (execute_task ex_randint) ex_clock 0 ex_health)) = [] \<and>
   task_queue (snd (worker_function_step (execute_task ex_randint) ex_clock 0 ex_health)) = []"
proof -
  have q: "queue_get (task_queue ex_health) =
      Some ((fst (hd (task_queue ex_health)), snd (hd (task_queue ex_health))), [])"
    by code_simp
  have d: "scheduled_time (snd (hd (task_queue ex_health))) \<le> ex_clock 0" by code_simp
  have n: "\<not> has_branch (name (snd (hd (task_queue ex_health))))" by code_simp
  have z: "retries (snd (hd (task_queue ex_health))) = 0" by code_simp
  have f: "failed_tasks ex_health = []" by code_simp
  from unknown_name_completes [where clk = ex_clock and randint = ex_randint and w = 0, OF q d n]
  show ?thesis
    using q d n z f by simp
qed

text \<open>
  The claim C3 as it is written fails: \<^verbatim>\<open>health_check\<close>, a name that
  \<^verbatim>\<open>generate_random_tasks\<close> draws and that no keyword branch takes, ends completed.
\<close>

theorem unknown_name_not_failed:
  "\<not> has_branch ''health_check'' \<and>
   map (\<lambda>c. (d_name (c_task c), d_status (c_task c), d_retries (c_task c)))
     (completed_tasks (snd (worker_function_step (execute_task ex_randint) ex_clock 0 ex_health)))
     = [(''health_check'', ''completed'', 0)] \<and>
   failed_tasks (snd (worker_function_step (execute_task ex_randint) ex_clock 0 ex_health)) = []"
  by code_simp

subsection \<open>Runs of the loop\<close>

lemma worker_function_idle:
  "task_queue s = [] \<Longrightarrow> running s \<Longrightarrow>
   worker_function hs clks w n s = (replicate n Queue_empty, s)"
  by (induction n arbitrary: hs clks) (simp_all add: step_empty)

lemma worker_function_Suc:
  "running s \<Longrightarrow>
   worker_function hs clks w (Suc n) s =
     (fst (worker_function_step (hs 0) (clks 0) w s) #
        fst (worker_function (\<lambda>i. hs (Suc i)) (\<lambda>i. clks (Suc i)) w n
               (snd (worker_function_step (hs 0) (clks 0) w s))),
      snd (worker_function (\<lambda>i. hs (Suc i)) (\<lambda>i. clks (Suc i)) w n
               (snd (worker_function_step (hs 0) (clks 0) w s))))"
  by (simp add: split_def Let_def)

lemma dispatch_count_simps [simp]:
  "dispatch_count [] = 0"
  "dispatch_count (Dispatched t # es) = Suc (dispatch_count es)"
  "dispatch_count (Deferred t # es) = dispatch_count es"
  "dispatch_count (Queue_empty # es) = dispatch_count es"
  "dispatch_count (replicate n Queue_empty) = 0"
  "dispatch_count (replicate n (Deferred t)) = 0"
  by (simp_all add: dispatch_count_def)

lemma fail_step_requeue:
  assumes "task_queue s = [(key, t)]" and "scheduled_time t \<le> clk 0"
    and "h (start_task clk w t) = Inl e" and "retries t + 1 < max_retries t"
  shows "fst (worker_function_step h clk w s) = Dispatched (start_task clk w t)"
    and "task_queue (snd (worker_function_step h clk w s)) =
      [(key, (start_task clk w t)\<lparr>status := ''failed'', error := Some e,
               retries := retries t + 1, priority := max 1 (priority t - 1)\<rparr>)]"
    and "failed_tasks (snd (worker_function_step h clk w s)) = failed_tasks s"
    and "running (snd (worker_function_step h clk w s)) = running s"
proof -
  have g: "queue_get (task_queue s) = Some ((key, t), [])"
    using assms(1) by (simp add: queue_get_single)
  have st: "worker_function_step h clk w s =
     (Dispatched (start_task clk w t),
      worker_finally (start_task clk w t)
        (worker_attempt h clk w key (start_task clk w t)
           (worker_dispatch (start_task clk w t) (s\<lparr>task_queue := []\<rparr>))))"
    using g assms(2) by (rule step_eligible)
  show "fst (worker_function_step h clk w s) = Dispatched (start_task clk w t)"
    by (simp add: st)
  show "task_queue (snd (worker_function_step h clk w s)) =
      [(key, (start_task clk w t)\<lparr>status := ''failed'', error := Some e,
               retries := retries t + 1, priority := max 1 (priority t - 1)\<rparr>)]"
    using assms(3,4) by (simp add: st attempt_Inl_retry)
  show "failed_tasks (snd (worker_function_step h clk w s)) = failed_tasks s"
    using assms(3,4) by (simp add: st attempt_Inl_retry)
  show "running (snd (worker_function_step h clk w s)) = running s"
    by (simp add: st)
qed

lemma fail_step_final:
  assumes "task_queue s = [(key, t)]" and "scheduled_time t \<le> clk 0"
    and "h (start_task clk w t) = Inl e" and "\<not> retries t + 1 < max_retries t"
  shows "fst (worker_function_step h clk w s) = Dispatched (start_task clk w t)"
    and "task_queue (snd (worker_function_step h clk w s)) = []"
    and "failed_tasks (snd (worker_function_step h clk w s)) =
      deque_append 500 (failed_tasks s)
        (to_dict ((start_task clk w t)\<lparr>status := ''failed'', error := Some e,
               retries := retries t + 1\<rparr>))"
    and "running (snd (worker_function_step h clk w s)) = running s"
proof -
  have g: "queue_get (task_queue s) = Some ((key, t), [])"
    using assms(1) by (simp add: queue_get_single)
  have st: "worker_function_step h clk w s =
     (Dispatched (start_task clk w t),
      worker_finally (start_task clk w t)
        (worker_attempt h clk w key (start_task clk w t)
           (worker_dispatch (start_task clk w t) (s\<lparr>task_queue := []\<rparr>))))"
    using g assms(2) by (rule step_eligible)
  show "fst (worker_function_step h clk w s) = Dispatched (start_task clk w t)"
    by (simp add: st)
  show "task_queue (snd (worker_function_step h clk w s)) = []"
    using assms(3,4) by (simp add: st attempt_Inl_final)
  show "failed_tasks (snd (worker_function_step h clk w s)) =
      deque_append 500 (failed_tasks s)
        (to_dict ((start_task clk w t)\<lparr>status := ''failed'', error := Some e,
               retries := retries t + 1\<rparr>))"
    using assms(3,4) by (simp add: st attempt_Inl_final)
  show "running (snd (worker_function_step h clk w s)) = running s"
    by (simp add: st)
qed

text \<open>A task that is alone in the queue, is due in every iteration and whose body
  always raises: the run of the loop, by the number of failures so far.\<close>

lemma failing_run:
  assumes "\<forall>i t. \<exists>e. hs i t = Inl e"
    and "task_queue s = [(key, t)]" and "running s" and "max_retries t = 3"
    and "\<forall>i. scheduled_time t \<le> clks i 0"
    and "0 \<le> retries t" and "retries t < 3" and "nat (3 - retries t) \<le> n"
  shows "dispatch_count (fst (worker_function hs clks w n s)) = nat (3 - retries t) \<and>
     task_queue (snd (worker_function hs clks w n s)) = [] \<and>
     (\<exists>d. failed_tasks (snd (worker_function hs clks w n s)) = deque_append 500 (failed_tasks s) d \<and>
          d_id d = task_id t \<and> d_retries d = 3 \<and> d_status d = ''failed'' \<and>
          d_priority d = (if retries t = 2 then priority t else max 1 (priority t - (2 - retries t))))"
  using assms
proof (induction n arbitrary: hs clks s t)
  case 0
  then show ?case by simp
next
  case (Suc n)
  let ?t1 = "start_task (clks 0) w t"
  let ?st = "worker_function_step (hs 0) (clks 0) w s"
  let ?hs = "\<lambda>i. hs (Suc i)" and ?clks = "\<lambda>i. clks (Suc i)"
  obtain e where e: "hs 0 ?t1 = Inl e" using Suc.prems(1) by blast
  have due: "scheduled_time t \<le> clks 0 0" using Suc.prems(5) by blast
  have unroll: "worker_function hs clks w (Suc n) s =
      (fst ?st # fst (worker_function ?hs ?clks w n (snd ?st)),
       snd (worker_function ?hs ?clks w n (snd ?st)))"
    using Suc.prems(3) by (rule worker_function_Suc)
  show ?case
  proof (cases "retries t + 1 < max_retries t")
    case True
    let ?t3 = "?t1\<lparr>status := ''failed'', error := Some e,
               retries := retries t + 1, priority := max 1 (priority t - 1)\<rparr>"
    note f = fail_step_requeue [where h = "hs 0" and clk = "clks 0", OF Suc.prems(2) due e True]
    have IH: "dispatch_count (fst (worker_function ?hs ?clks w n (snd ?st))) = nat (3 - retries ?t3) \<and>
     task_queue (snd (worker_function ?hs ?clks w n (snd ?st))) = [] \<and>
     (\<exists>d. failed_tasks (snd (worker_function ?hs ?clks w n (snd ?st))) = deque_append 500 (failed_tasks (snd ?st)) d \<and>
          d_id d = task_id ?t3 \<and> d_retries d = 3 \<and> d_status d = ''failed'' \<and>
          d_priority d = (if retries ?t3 = 2 then priority ?t3 else max 1 (priority ?t3 - (2 - retries ?t3))))"
    proof (rule Suc.IH)
      show "\<forall>i t. \<exists>e. hs (Suc i) t = Inl e" using Suc.prems(1) by blast
      show "task_queue (snd ?st) = [(key, ?t3)]" by (rule f(2))
      show "running (snd ?st)" using f(4) Suc.prems(3) by simp
      show "max_retries ?t3 = 3" using Suc.prems(4) by simp
      show "\<forall>i. scheduled_time ?t3 \<le> clks (Suc i) 0" using Suc.prems(5) by simp
      show "0 \<le> retries ?t3" using Suc.prems(6) by simp
      show "retries ?t3 < 3" using True Suc.prems(4) by simp
      show "nat (3 - retries ?t3) \<le> n" using Suc.prems(6,8) by simp
    qed
    have "nat (3 - retries t) = Suc (nat (3 - retries ?t3))"
      using True Suc.prems(4,6) by simp
    moreover have "(if retries ?t3 = 2 then priority ?t3 else max 1 (priority ?t3 - (2 - retries ?t3)))
        = (if retries t = 2 then priority t else max 1 (priority t - (2 - retries t)))"
      using True Suc.prems(4,6) by auto
    ultimately show ?thesis
      using IH f(1,3) by (simp add: unroll del: worker_function.simps)
  next
    case False
    note f = fail_step_final [where h = "hs 0" and clk = "clks 0", OF Suc.prems(2) due e False]
    have r2: "retries t = 2" using False Suc.prems(4,7) by simp
    have idle: "worker_function ?hs ?clks w n (snd ?st) = (replicate n Queue_empty, snd ?st)"
      using f(2,4) Suc.prems(3) by (simp add: worker_function_idle)
    let ?d = "to_dict (?t1\<lparr>status := ''failed'', error := Some e, retries := retries t + 1\<rparr>)"
    have a: "dispatch_count (fst (worker_function hs clks w (Suc n) s)) = nat (3 - retries t)"
      using f(1) r2 by (simp add: unroll idle del: worker_function.simps)
    have b: "task_queue (snd (worker_function hs clks w (Suc n) s)) = []"
      using f(2) by (simp add: unroll idle del: worker_function.simps)
    have c: "failed_tasks (snd (worker_function hs clks w (Suc n) s)) =
        deque_append 500 (failed_tasks s) ?d"
      using f(3) by (simp add: unroll idle del: worker_function.simps)
    have d: "d_id ?d = task_id t \<and> d_retries ?d = 3 \<and> d_status ?d = ''failed'' \<and>
        d_priority ?d = (if retries t = 2 then priority t else max 1 (priority t - (2 - retries t)))"
      using r2 by (simp add: to_dict_def)
    show ?thesis
      using a b c d by blast
  qed
qed

lemma worker_function_dispatched:
  assumes "Dispatched t1 \<in> set (fst (worker_function hs clks w n s))"
  shows "\<exists>i<n. scheduled_time t1 \<le> clks i 0 \<and> started_at t1 = Some (clks i 1) \<and>
           status t1 = ''running''"
  using assms
proof (induction n arbitrary: hs clks s)
  case 0
  then show ?case by simp
next
  case (Suc n)
  show ?case
  proof (cases "running s")
    case False
    then show ?thesis using Suc.prems by simp
  next
    case True
    obtain e s1 where st: "worker_function_step (hs 0) (clks 0) w s = (e, s1)"
      by (cases "worker_function_step (hs 0) (clks 0) w s")
    obtain es s2 where rest: "worker_function (\<lambda>i. hs (Suc i)) (\<lambda>i. clks (Suc i)) w n s1 = (es, s2)"
      by (cases "worker_function (\<lambda>i. hs (Suc i)) (\<lambda>i. clks (Suc i)) w n s1")
    from Suc.prems True st rest have "Dispatched t1 = e \<or> Dispatched t1 \<in> set es"
      by auto
    then show ?thesis
    proof
      assume "Dispatched t1 = e"
      then have "fst (worker_function_step (hs 0) (clks 0) w s) = Dispatched t1"
        using st by simp
      from step_dispatchD [OF this] show ?thesis by auto
    next
      assume "Dispatched t1 \<in> set es"
      then have "Dispatched t1 \<in> set (fst (worker_function (\<lambda>i. hs (Suc i)) (\<lambda>i. clks (Suc i)) w n s1))"
        using rest by simp
      from Suc.IH [OF this] obtain i where "i < n" "scheduled_time t1 \<le> clks (Suc i) 0"
        "started_at t1 = Some (clks (Suc i) 1)" "status t1 = ''running''" by auto
      then show ?thesis by (intro exI [of _ "Suc i"]) simp
    qed
  qed
qed

subsection \<open>Invariants of the reachable states\<close>

lemma step_queue_cases:
  assumes "queue_get (task_queue s) = Some ((key, t), rest)" and "scheduled_time t \<le> clk 0"
  shows "task_queue (snd (worker_function_step h clk w s)) = rest \<or>
    (\<exists>e. h (start_task clk w t) = Inl e \<and> retries t + 1 < max_retries t \<and>
       task_queue (snd (worker_function_step h clk w s)) =
         rest @ [(key, (start_task clk w t)\<lparr>status := ''failed'', error := Some e,
                    retries := retries t + 1, priority := max 1 (priority t - 1)\<rparr>)])"
proof (cases "h (start_task clk w t)")
  case (Inr r)
  then show ?thesis using assms by (simp add: step_eligible attempt_Inr)
next
  case (Inl e)
  show ?thesis
  proof (cases "retries t + 1 < max_retries t")
    case True
    then show ?thesis using assms Inl by (simp add: step_eligible attempt_Inl_retry)
  next
    case False
    then show ?thesis using assms Inl by (simp add: step_eligible attempt_Inl_final)
  qed
qed



lemma requeued_entry_inv:
  assumes "queued_entry_inv (key, t)" and "retries t + 1 < max_retries t"
  shows "queued_entry_inv (key, (start_task clk w t)\<lparr>status := ''failed'', error := Some e,
                    retries := retries t + 1, priority := max 1 (priority t - 1)\<rparr>)"
  using assms by (auto simp: queued_entry_inv_def)

lemma step_queue_inv:
  assumes "\<forall>e\<in>set (task_queue s). queued_entry_inv e"
  shows "\<forall>e\<in>set (task_queue (snd (worker_function_step h clk w s))). queued_entry_inv e"
proof (cases "queue_get (task_queue s)")
  case None
  then show ?thesis using assms by (simp add: worker_function_step_def)
next
  case (Some a)
  obtain key t rest where a: "a = ((key, t), rest)" by (cases a) auto
  have g: "queue_get (task_queue s) = Some ((key, t), rest)" using Some a by simp
  note d = queue_get_SomeD [OF g]
  have kt: "queued_entry_inv (key, t)" using assms d(1) by blast
  have rest: "\<forall>e\<in>set rest. queued_entry_inv e" using assms d(5) by blast
  show ?thesis
  proof (cases "scheduled_time t \<le> clk 0")
    case False
    then show ?thesis using g kt rest by (simp add: step_deferred)
  next
    case True
    from step_queue_cases [where clk = clk and h = h and w = w, OF g True] show ?thesis
    proof
      assume "task_queue (snd (worker_function_step h clk w s)) = rest"
      then show ?thesis using rest by simp
    next
      assume "\<exists>e. h (start_task clk w t) = Inl e \<and> retries t + 1 < max_retries t \<and>
       task_queue (snd (worker_function_step h clk w s)) =
         rest @ [(key, (start_task clk w t)\<lparr>status := ''failed'', error := Some e,
                    retries := retries t + 1, priority := max 1 (priority t - 1)\<rparr>)]"
      then obtain e where r: "retries t + 1 < max_retries t" and
        q: "task_queue (snd (worker_function_step h clk w s)) =
         rest @ [(key, (start_task clk w t)\<lparr>status := ''failed'', error := Some e,
                    retries := retries t + 1, priority := max 1 (priority t - 1)\<rparr>)]"
        by blast
      show ?thesis using rest requeued_entry_inv [OF kt r] by (simp add: q)
    qed
  qed
qed

lemma reachable_queue_inv: "reachable s \<Longrightarrow> \<forall>e\<in>set (task_queue s). queued_entry_inv e"
proof (induction rule: reachable.induct)
  case init
  show ?case by (simp add: TaskScheduler_init_def)
next
  case (submit s clk nm prio delay)
  then show ?case
    by (simp add: add_task_def Let_def queue_put_def Task_init_def queued_entry_inv_def)
next
  case (iteration s h clk w)
  then show ?case by (simp add: step_queue_inv)
next
  case (stop s)
  then show ?case by (simp add: stop_workers_def)
qed













lemma step_task_counter [simp]:
  "task_counter (snd (worker_function_step h clk w s)) = task_counter s"
  by (auto simp: worker_function_step_def worker_attempt_def worker_finally_def Let_def
      split: option.splits prod.splits sum.splits)




lemma reachable_ex_job: "reachable ex_job"
  unfolding ex_job_def by (intro reachable.intros)

lemma reachable_worker_function:
  "reachable s \<Longrightarrow> reachable (snd (worker_function hs clks w n s))"
proof (induction n arbitrary: hs clks s)
  case 0
  then show ?case by simp
next
  case (Suc n)
  show ?case
  proof (cases "running s")
    case False
    then show ?thesis using Suc.prems by simp
  next
    case True
    have "reachable (snd (worker_function_step (hs 0) (clks 0) w s))"
      using Suc.prems by (rule reachable.iteration)
    then show ?thesis
      using True Suc.IH by (simp add: worker_function_Suc del: worker_function.simps)
  qed
qed

lemma reachable_ex_job_failed: "reachable (ex_job_failed n)"
  unfolding ex_job_failed_def by (rule reachable_worker_function [OF reachable_ex_job])

subsection \<open>Queue and running set\<close>









subsection \<open>The retry bound\<close>

text \<open>
  C2 (as amended). A task is submitted to a running scheduler with an empty
  queue; its body raises at every call and the task is due in every iteration.
  Then, for any run of at least three iterations, the body is called exactly 3
  times (\<open>max_retries\<close> attempts, the task being requeued twice), the queue is
  empty at the end and the last record of \<open>failed_tasks\<close> is the task's, with
  \<open>retries = 3\<close> and status \<^verbatim>\<open>failed\<close>.
\<close>

theorem always_failing_task_three_attempts:
  assumes "\<forall>i t. \<exists>e. hs i t = Inl e"
    and "task_queue s0 = []" and "running s0"
    and "\<forall>i. \<forall>e\<in>set (task_queue (snd (add_task clk s0 nm prio delay))). scheduled_time (snd e) \<le> clks i 0"
    and "3 \<le> n"
  shows "dispatch_count (fst (worker_function hs clks w n (snd (add_task clk s0 nm prio delay)))) = 3 \<and>
     task_queue (snd (worker_function hs clks w n (snd (add_task clk s0 nm prio delay)))) = [] \<and>
     (\<exists>d. failed_tasks (snd (worker_function hs clks w n (snd (add_task clk s0 nm prio delay))))
               = deque_append 500 (failed_tasks s0) d \<and>
          d_id d = fst (add_task clk s0 nm prio delay) \<and> d_retries d = 3 \<and> d_status d = ''failed'')"
proof -
  let ?s1 = "snd (add_task clk s0 nm prio delay)"
  let ?t = "Task_init (\<lambda>i. clk (i + 2)) (fst (add_task clk s0 nm prio delay)) nm prio
              (Some (clk 1 + delay))"
  have q: "task_queue ?s1 = [(prio, ?t)]"
    using assms(2) by (simp add: add_task_def Let_def queue_put_def)
  have t: "max_retries ?t = 3" "retries ?t = 0" "task_id ?t = fst (add_task clk s0 nm prio delay)"
    by (simp_all add: add_task_def Let_def queue_put_def Task_init_def)
  have r: "running ?s1" "failed_tasks ?s1 = failed_tasks s0"
    using assms(3) by (simp_all add: add_task_def Let_def)
  have due: "\<forall>i. scheduled_time ?t \<le> clks i 0"
    using assms(4) q by simp
  have n: "nat (3 - retries ?t) \<le> n" "0 \<le> retries ?t" "retries ?t < 3" "nat (3 - retries ?t) = 3"
    using assms(5) t(2) by simp_all
  from failing_run [where hs = hs and clks = clks and n = n and w = w,
      OF assms(1) q r(1) t(1) due n(2,3,1)]
  show ?thesis unfolding n(4) t(3) r(2) by blast
qed

theorem always_failing_task_three_attempts_witness:
  "dispatch_count (fst (worker_function (\<lambda>i. ex_raises) (\<lambda>i. ex_clock) 0 3 ex_job)) = 3 \<and>
   task_queue (snd (worker_function (\<lambda>i. ex_raises) (\<lambda>i. ex_clock) 0 3 ex_job)) = [] \<and>
   map (\<lambda>d. (d_id d, d_retries d, d_status d))
     (failed_tasks (snd (worker_function (\<lambda>i. ex_raises) (\<lambda>i. ex_clock) 0 3 ex_job)))
     = [(''task_1_100'', 3, ''failed'')]"
proof -
  have 1: "\<forall>i t. \<exists>e. (\<lambda>i. ex_raises) i t = Inl e" by (simp add: ex_raises_def)
  have 2: "task_queue TaskScheduler_init = []" "running TaskScheduler_init"
    by (simp_all add: TaskScheduler_init_def)
  have 3: "\<forall>i. \<forall>e\<in>set (task_queue (snd (add_task ex_clock TaskScheduler_init ''job'' 5 0))).
      scheduled_time (snd e) \<le> (\<lambda>i. ex_clock) i 0"
    by (simp add: add_task_def Task_init_def TaskScheduler_init_def queue_put_def ex_clock_def
        Let_def)
  have 4: "(3::nat) \<le> 3" by simp
  have 5: "map (\<lambda>d. (d_id d, d_retries d, d_status d))
     (failed_tasks (snd (worker_function (\<lambda>i. ex_raises) (\<lambda>i. ex_clock) 0 3 ex_job)))
     = [(''task_1_100'', 3, ''failed'')]" by code_simp
  from always_failing_task_three_attempts [where hs = "\<lambda>i. ex_raises" and clks = "\<lambda>i. ex_clock"
      and w = 0, OF 1 2 3 4]
  show ?thesis using 5 unfolding ex_job_def by blast
qed

text \<open>
  The claim C2 as it is written fails: with \<open>max_retries = 3\<close> the always-raising
  body of \<open>ex_job\<close> is called 3 times, not 4, in a run of ten iterations that
  ends with the queue empty and the task recorded as failed with \<open>retries = 3\<close>.
\<close>

theorem always_failing_task_not_four_attempts:
  "dispatch_count (fst (worker_function (\<lambda>i. ex_raises) (\<lambda>i. ex_clock) 0 10 ex_job)) \<noteq> 4 \<and>
   dispatch_count (fst (worker_function (\<lambda>i. ex_raises) (\<lambda>i. ex_clock) 0 10 ex_job)) = 3 \<and>
   task_queue (snd (worker_function (\<lambda>i. ex_raises) (\<lambda>i. ex_clock) 0 10 ex_job)) = [] \<and>
   map (\<lambda>d. (d_retries d, d_status d))
     (failed_tasks (snd (worker_function (\<lambda>i. ex_raises) (\<lambda>i. ex_clock) 0 10 ex_job)))
     = [(3, ''failed'')]"
  by code_simp

subsection \<open>The dequeue step\<close>

lemma queue_get_strict_least:
  assumes "m \<in> set q" and "\<forall>x\<in>set q. x \<noteq> m \<longrightarrow> entry_less m x"
  shows "queue_get q = Some (m, remove1 m q)"
proof -
  from assms(1) obtain x xs where q: "q = x # xs" by (cases q) auto
  then obtain m' rest where g: "queue_get q = Some (m', rest)"
    by (simp add: queue_get_def Let_def)
  note d = queue_get_SomeD [OF g]
  have "m' = m"
  proof (rule ccontr)
    assume "m' \<noteq> m"
    then have "entry_less m m'" using assms(2) d(1) by blast
    then show False using d(3) assms(1) by blast
  qed
  then show ?thesis using g d(2) by simp
qed

lemma set_remove1_requeue: "m \<in> set q \<Longrightarrow> set (remove1 m q @ [m]) = set q"
  by (induction q) auto

lemma deferred_while_not_due:
  assumes "(key, t) \<in> set (task_queue s)"
    and "\<forall>x\<in>set (task_queue s). x \<noteq> (key, t) \<longrightarrow> entry_less (key, t) x"
    and "\<forall>i<n. clks i 0 < scheduled_time t" and "running s"
  shows "fst (worker_function hs clks w n s) = replicate n (Deferred t)"
  using assms
proof (induction n arbitrary: hs clks s)
  case 0
  then show ?case by simp
next
  case (Suc n)
  let ?s1 = "s\<lparr>task_queue := remove1 (key, t) (task_queue s) @ [(key, t)]\<rparr>"
  have g: "queue_get (task_queue s) = Some ((key, t), remove1 (key, t) (task_queue s))"
    using Suc.prems(1,2) by (rule queue_get_strict_least)
  have l: "clks 0 0 < scheduled_time t" using Suc.prems(3) by simp
  have st: "worker_function_step (hs 0) (clks 0) w s = (Deferred t, ?s1)"
    using g l by (rule step_deferred)
  have set: "set (task_queue ?s1) = set (task_queue s)"
    using set_remove1_requeue [OF Suc.prems(1)] by simp
  have "fst (worker_function (\<lambda>i. hs (Suc i)) (\<lambda>i. clks (Suc i)) w n ?s1) = replicate n (Deferred t)"
  proof (rule Suc.IH)
    show "(key, t) \<in> set (task_queue ?s1)" by simp
    show "\<forall>x\<in>set (task_queue ?s1). x \<noteq> (key, t) \<longrightarrow> entry_less (key, t) x"
      using Suc.prems(2) unfolding set by blast
    show "\<forall>i<n. clks (Suc i) 0 < scheduled_time t" using Suc.prems(3) by simp
    show "running ?s1" using Suc.prems(4) by simp
  qed
  then show ?case
    using Suc.prems(4) by (simp add: worker_function_Suc st del: worker_function.simps)
qed

text \<open>
  C4 (as amended). The dequeue step takes a least entry of the queue, by priority
  key and then by task priority, due or not. If its task is due the task is
  dispatched. If it is not due, the entry is put back, the queue holds the same
  entries as before, and this iteration dispatches nothing, whatever due entries
  the queue holds. As long as an entry that is less than every other one is not
  due, every iteration of a single worker defers it and none dispatches.
\<close>

theorem dequeue_takes_least_entry:
  assumes "queue_get (task_queue s) = Some ((key, t), rest)"
  shows "(\<forall>x\<in>set (task_queue s). \<not> entry_less x (key, t)) \<and>
    (scheduled_time t \<le> clk 0 \<longrightarrow>
       fst (worker_function_step h clk w s) = Dispatched (start_task clk w t)) \<and>
    (clk 0 < scheduled_time t \<longrightarrow>
       worker_function_step h clk w s = (Deferred t, s\<lparr>task_queue := rest @ [(key, t)]\<rparr>) \<and>
       mset (task_queue (snd (worker_function_step h clk w s))) = mset (task_queue s)) \<and>
    (running s \<and> (\<forall>x\<in>set (task_queue s). x \<noteq> (key, t) \<longrightarrow> entry_less (key, t) x) \<and>
       (\<forall>i<n. clks i 0 < scheduled_time t) \<longrightarrow>
       fst (worker_function hs clks w n s) = replicate n (Deferred t))"
proof -
  note d = queue_get_SomeD [OF assms]
  have 1: "\<forall>x\<in>set (task_queue s). \<not> entry_less x (key, t)" by (rule d(3))
  have 2: "fst (worker_function_step h clk w s) = Dispatched (start_task clk w t)"
    if "scheduled_time t \<le> clk 0"
    using assms that by (simp add: step_eligible)
  have 3: "worker_function_step h clk w s = (Deferred t, s\<lparr>task_queue := rest @ [(key, t)]\<rparr>) \<and>
       mset (task_queue (snd (worker_function_step h clk w s))) = mset (task_queue s)"
    if "clk 0 < scheduled_time t"
    using assms that d(4) by (simp add: step_deferred)
  have 4: "fst (worker_function hs clks w n s) = replicate n (Deferred t)"
    if "running s" and "\<forall>x\<in>set (task_queue s). x \<noteq> (key, t) \<longrightarrow> entry_less (key, t) x"
      and "\<forall>i<n. clks i 0 < scheduled_time t"
    using d(1) that(2,3,1) by (rule deferred_while_not_due)
  show ?thesis using 1 2 3 4 by blast
qed

theorem dequeue_takes_least_entry_witness:
  "ex_clock 0 < scheduled_time (snd (hd (task_queue ex_two))) \<and>
   worker_function_step ex_raises ex_clock 0 ex_two =
     (Deferred (snd (hd (task_queue ex_two))),
      ex_two\<lparr>task_queue := tl (task_queue ex_two) @
         [(fst (hd (task_queue ex_two)), snd (hd (task_queue ex_two)))]\<rparr>) \<and>
   mset (task_queue (snd (worker_function_step ex_raises ex_clock 0 ex_two))) = mset (task_queue ex_two) \<and>
   fst (worker_function (\<lambda>i. ex_raises) (\<lambda>i. ex_clock) 0 7 ex_two) =
     replicate 7 (Deferred (snd (hd (task_queue ex_two)))) \<and>
   scheduled_time (snd (hd (task_queue ex_job))) \<le> ex_clock 0 \<and>
   fst (worker_function_step ex_raises ex_clock 0 ex_job) =
     Dispatched (start_task ex_clock 0 (snd (hd (task_queue ex_job))))"
proof -
  let ?k = "fst (hd (task_queue ex_two))" and ?t = "snd (hd (task_queue ex_two))"
  have q2: "queue_get (task_queue ex_two) = Some ((?k, ?t), tl (task_queue ex_two))"
    by code_simp
  have l2: "ex_clock 0 < scheduled_time ?t" by code_simp
  have r2: "running ex_two" by code_simp
  have s2: "\<forall>x\<in>set (task_queue ex_two). x \<noteq> (?k, ?t) \<longrightarrow> entry_less (?k, ?t) x"
    by code_simp
  have a2: "\<forall>i<7. (\<lambda>i. ex_clock) i 0 < scheduled_time ?t"
    using l2 by (simp add: ex_clock_def)
  have q1: "queue_get (task_queue ex_job) =
      Some ((fst (hd (task_queue ex_job)), snd (hd (task_queue ex_job))), tl (task_queue ex_job))"
    by code_simp
  have l1: "scheduled_time (snd (hd (task_queue ex_job))) \<le> ex_clock 0" by code_simp
  note two = dequeue_takes_least_entry [where clk = ex_clock and h = ex_raises and w = 0
      and n = 7 and hs = "\<lambda>i. ex_raises" and clks = "\<lambda>i. ex_clock", OF q2]
  note job = dequeue_takes_least_entry [where clk = ex_clock and h = ex_raises and w = 0
      and n = 0 and hs = "\<lambda>i. ex_raises" and clks = "\<lambda>i. ex_clock", OF q1]
  have 1: "worker_function_step ex_raises ex_clock 0 ex_two =
     (Deferred ?t, ex_two\<lparr>task_queue := tl (task_queue ex_two) @ [(?k, ?t)]\<rparr>) \<and>
     mset (task_queue (snd (worker_function_step ex_raises ex_clock 0 ex_two))) = mset (task_queue ex_two)"
    using two l2 by blast
  have 2: "fst (worker_function (\<lambda>i. ex_raises) (\<lambda>i. ex_clock) 0 7 ex_two) = replicate 7 (Deferred ?t)"
    using two r2 s2 a2 by blast
  have 3: "fst (worker_function_step ex_raises ex_clock 0 ex_job) =
     Dispatched (start_task ex_clock 0 (snd (hd (task_queue ex_job))))"
    using job l1 by blast
  show ?thesis using l2 1 2 l1 3 by blast
qed

text \<open>
  The claim C4 as it is written fails: in \<open>ex_two\<close> the entry of priority 5 is
  due at time 100, the entry of priority 1 is due at 150; the iteration at time
  100 defers the latter, and five iterations of a single worker dispatch nothing.
\<close>

theorem ineligible_least_entry_blocks:
  "list_ex (\<lambda>e. scheduled_time (snd e) \<le> ex_clock 0) (task_queue ex_two) \<and>
   fst (worker_function_step (execute_task ex_randint) ex_clock 0 ex_two)
     = Deferred (snd (hd (task_queue ex_two))) \<and>
   scheduled_time (snd (hd (task_queue ex_two))) = 150 \<and>
   dispatch_count (fst (worker_function (\<lambda>i. execute_task ex_randint) (\<lambda>i. ex_clock) 0 5 ex_two)) = 0"
  by code_simp

subsection \<open>Submission\<close>

text \<open>
  C8 (as amended). \<open>add_task\<close> validates nothing: for every priority and every
  delay it returns the id of a new pending task and appends that task to the
  queue, under the priority given, scheduled at the clock reading plus the delay
  (at the next clock reading when that sum is 0).
\<close>

theorem add_task_accepts_any_arguments:
  "(let t = snd (last (task_queue (snd (add_task clk s nm prio delay))))
    in add_task clk s nm prio delay =
          (task_id t, s\<lparr>task_counter := task_counter s + 1,
                        task_queue := task_queue s @ [(prio, t)]\<rparr>) \<and>
        name t = nm \<and> priority t = prio \<and> status t = ''pending'' \<and> retries t = 0 \<and>
        scheduled_time t = (if clk 1 + delay = 0 then clk 2 else clk 1 + delay))"
  by (simp add: add_task_def Task_init_def Let_def queue_put_def numeral_2_eq_2)

text \<open>
  The claim C8 as it is written fails: priority 0 with delay \<open>- 1\<close> is accepted;
  the call returns an id and the task is in the queue, scheduled in the past.
\<close>

theorem add_task_enqueues_invalid_arguments:
  "fst (add_task ex_clock TaskScheduler_init ''late'' 0 (- 1)) = ''task_1_100'' \<and>
   map (\<lambda>e. (fst e, task_id (snd e), priority (snd e), scheduled_time (snd e)))
     (task_queue (snd (add_task ex_clock TaskScheduler_init ''late'' 0 (- 1))))
     = [(0, ''task_1_100'', 0, 99)]"
  by code_simp

subsection \<open>The retry path\<close>

text \<open>
  C5 (as amended). The program has no transition back to \<^verbatim>\<open>pending\<close>. A task
  waiting in the queue has the status \<^verbatim>\<open>pending\<close> as long as it has not failed and
  the status \<^verbatim>\<open>failed\<close> from its first failure on: the retry path
  (\<open>retries < max_retries\<close> after the increment) puts the task back with the
  status \<^verbatim>\<open>failed\<close> that the \<^verbatim>\<open>except\<close> branch has just set, and the status
  changes only at the next dispatch, to \<^verbatim>\<open>running\<close>.
\<close>

theorem requeued_task_keeps_failed_status:
  assumes "reachable s" and "e \<in> set (task_queue s)"
  shows "status (snd e) = (if retries (snd e) = 0 then ''pending'' else ''failed'') \<and>
    (\<forall>h clk w key t1 s0 err. h t1 = Inl err \<and> retries t1 + 1 < max_retries t1 \<longrightarrow>
       (\<exists>t3. task_queue (worker_attempt h clk w key t1 s0) = task_queue s0 @ [(key, t3)] \<and>
             status t3 = ''failed'' \<and> retries t3 = retries t1 + 1))"
proof -
  have "queued_entry_inv e" using reachable_queue_inv assms by blast
  then have 1: "status (snd e) = (if retries (snd e) = 0 then ''pending'' else ''failed'')"
    by (simp add: queued_entry_inv_def)
  show ?thesis using 1 by (simp add: attempt_Inl_retry)
qed

theorem requeued_task_keeps_failed_status_witness:
  "hd (task_queue (ex_job_failed 1)) \<in> set (task_queue (ex_job_failed 1)) \<and>
   retries (snd (hd (task_queue (ex_job_failed 1)))) = 1 \<and>
   status (snd (hd (task_queue (ex_job_failed 1)))) = ''failed'' \<and>
   map (\<lambda>x. status (snd x)) (task_queue (worker_attempt ex_raises ex_clock 0 5 ex_job_started ex_job))
     = [''pending'', ''failed'']"
proof -
  have m: "hd (task_queue (ex_job_failed 1)) \<in> set (task_queue (ex_job_failed 1))"
    unfolding ex_job_failed_def by code_simp
  have r: "retries (snd (hd (task_queue (ex_job_failed 1)))) = 1"
    unfolding ex_job_failed_def by code_simp
  have a: "ex_raises ex_job_started = Inl ''boom'' \<and>
      retries ex_job_started + 1 < max_retries ex_job_started" by code_simp
  have p: "map (\<lambda>x. status (snd x)) (task_queue ex_job) = [''pending'']" by code_simp
  note t = requeued_task_keeps_failed_status [OF reachable_ex_job_failed m]
  from t have 1: "status (snd (hd (task_queue (ex_job_failed 1)))) = ''failed''"
    using r by simp
  from t a obtain t3 where
    "task_queue (worker_attempt ex_raises ex_clock 0 5 ex_job_started ex_job) = task_queue ex_job @ [(5, t3)]"
    "status t3 = ''failed''" by blast
  then have 2: "map (\<lambda>x. status (snd x)) (task_queue (worker_attempt ex_raises ex_clock 0 5 ex_job_started ex_job))
     = [''pending'', ''failed'']" using p by simp
  show ?thesis using m r 1 2 by blast
qed

text \<open>
  The claim C5 as it is written fails: after the first failed attempt on
  \<open>ex_job\<close> the requeued task (\<open>retries = 1 < 3\<close>) waits with status
  \<^verbatim>\<open>failed\<close>.
\<close>

theorem requeued_task_not_pending:
  "map (\<lambda>e. (retries (snd e), max_retries (snd e), status (snd e)))
     (task_queue (snd (worker_function_step ex_raises ex_clock 0 ex_job))) = [(1, 3, ''failed'')] \<and>
   ''failed'' \<noteq> ''pending''"
  by code_simp

text \<open>
  C6. The code at the failing input: \<open>ex_job\<close> is submitted with priority 5
  under the key 5; after the first failed attempt the task's priority is 4 and
  the key it is put back under is still 5, the value of the local variable
  \<^verbatim>\<open>priority\<close> that \<^verbatim>\<open>get\<close> returned.
\<close>

theorem retry_reinserts_under_dequeued_key:
  "map (\<lambda>e. (fst e, priority (snd e))) (task_queue ex_job) = [(5, 5)] \<and>
   map (\<lambda>e. (fst e, priority (snd e)))
     (task_queue (snd (worker_function_step ex_raises ex_clock 0 ex_job))) = [(5, 4)]"
  by code_simp

text \<open>
  C7 (as amended). For a task submitted with priority \<open>p \<ge> 1\<close> (the key it is
  queued under): while it is queued its failures number at most 2 and its
  priority is \<open>max 1 (p - retries)\<close>, between 1 and \<open>p\<close>. A failure with fewer
  than 2 earlier ones requeues it with one more retry and the priority due to
  that count, never a higher one. The third failure makes \<open>retries = 3\<close> and
  leaves the priority alone, so the failed record shows \<open>max 1 (p - 2)\<close>.
  A completion changes neither.
\<close>

theorem queued_priority_follows_retries:
  assumes "reachable s" and "(p, t) \<in> set (task_queue s)" and "1 \<le> p"
  shows "priority t = max 1 (p - retries t) \<and> 1 \<le> priority t \<and> priority t \<le> p \<and>
    0 \<le> retries t \<and> retries t \<le> 2 \<and>
    (\<forall>h clk w s0 e. h (start_task clk w t) = Inl e \<longrightarrow>
       (retries t < 2 \<longrightarrow>
          (\<exists>t'. task_queue (worker_attempt h clk w p (start_task clk w t) s0) = task_queue s0 @ [(p, t')] \<and>
                retries t' = retries t + 1 \<and> priority t' = max 1 (p - retries t') \<and>
                priority t' \<le> priority t)) \<and>
       (retries t = 2 \<longrightarrow>
          (\<exists>d. failed_tasks (worker_attempt h clk w p (start_task clk w t) s0) =
                  deque_append 500 (failed_tasks s0) d \<and>
               d_retries d = 3 \<and> d_priority d = max 1 (p - 2)))) \<and>
    (\<forall>h clk w s0 r. h (start_task clk w t) = Inr r \<longrightarrow>
       (\<exists>c. completed_tasks (worker_attempt h clk w p (start_task clk w t) s0) =
               deque_append 1000 (completed_tasks s0) c \<and>
            d_retries (c_task c) = retries t \<and> d_priority (c_task c) = priority t))"
proof -
  have inv: "queued_entry_inv (p, t)" using reachable_queue_inv assms(1,2) by blast
  then have m: "max_retries t = 3" and r0: "0 \<le> retries t" and r3: "retries t < 3"
    and pr: "priority t = (if retries t = 0 then p else max 1 (p - retries t))"
    by (simp_all add: queued_entry_inv_def)
  have 1: "priority t = max 1 (p - retries t)" using pr assms(3) by simp
  have 2: "1 \<le> priority t \<and> priority t \<le> p \<and> 0 \<le> retries t \<and> retries t \<le> 2"
    using 1 r0 r3 assms(3) by simp
  have 3: "\<exists>t'. task_queue (worker_attempt h clk w p (start_task clk w t) s0) = task_queue s0 @ [(p, t')] \<and>
                retries t' = retries t + 1 \<and> priority t' = max 1 (p - retries t') \<and>
                priority t' \<le> priority t"
    if "h (start_task clk w t) = Inl e" and "retries t < 2" for h clk w s0 e
    using that m 1 by (simp add: attempt_Inl_retry)
  have 4: "\<exists>d. failed_tasks (worker_attempt h clk w p (start_task clk w t) s0) =
                  deque_append 500 (failed_tasks s0) d \<and>
               d_retries d = 3 \<and> d_priority d = max 1 (p - 2)"
    if "h (start_task clk w t) = Inl e" and "retries t = 2" for h clk w s0 e
  proof -
    let ?d = "to_dict ((start_task clk w t)\<lparr>status := ''failed'', error := Some e,
       retries := retries (start_task clk w t) + 1\<rparr>)"
    have "failed_tasks (worker_attempt h clk w p (start_task clk w t) s0) =
                  deque_append 500 (failed_tasks s0) ?d"
      using that m by (simp add: attempt_Inl_final)
    moreover have "d_retries ?d = 3 \<and> d_priority ?d = max 1 (p - 2)"
      using that 1 by (simp add: to_dict_def)
    ultimately show ?thesis by blast
  qed
  have 5: "\<exists>c. completed_tasks (worker_attempt h clk w p (start_task clk w t) s0) =
               deque_append 1000 (completed_tasks s0) c \<and>
            d_retries (c_task c) = retries t \<and> d_priority (c_task c) = priority t"
    if "h (start_task clk w t) = Inr r" for h clk w s0 r
  proof -
    let ?c = "\<lparr>c_task = to_dict ((start_task clk w t)\<lparr>status := ''completed'',
          completed_at := Some (clk 2), result := Some r\<rparr>), c_result = r, c_worker = w\<rparr>"
    have "completed_tasks (worker_attempt h clk w p (start_task clk w t) s0) =
               deque_append 1000 (completed_tasks s0) ?c"
      using that by (simp add: attempt_Inr)
    moreover have "d_retries (c_task ?c) = retries t \<and> d_priority (c_task ?c) = priority t"
      by (simp add: to_dict_def)
    ultimately show ?thesis by blast
  qed
  show ?thesis using 1 2 3 4 5 by blast
qed

theorem queued_priority_follows_retries_witness:
  "map (\<lambda>e. (fst e, priority (snd e), retries (snd e))) (task_queue (ex_job_failed 1)) = [(5, 4, 1)] \<and>
   map (\<lambda>e. (fst e, priority (snd e), retries (snd e))) (task_queue (ex_job_failed 2)) = [(5, 3, 2)] \<and>
   priority (snd (hd (task_queue (ex_job_failed 1)))) = max 1 (5 - retries (snd (hd (task_queue (ex_job_failed 1))))) \<and>
   priority (snd (hd (task_queue (ex_job_failed 2)))) = max 1 (5 - retries (snd (hd (task_queue (ex_job_failed 2))))) \<and>
   (\<exists>t'. task_queue (worker_attempt ex_raises ex_clock 0 5
            (start_task ex_clock 0 (snd (hd (task_queue (ex_job_failed 1))))) TaskScheduler_init) = [(5, t')] \<and>
         retries t' = 2 \<and> priority t' = 3) \<and>
   (\<exists>d. failed_tasks (worker_attempt ex_raises ex_clock 0 5
            (start_task ex_clock 0 (snd (hd (task_queue (ex_job_failed 2))))) TaskScheduler_init) =
            deque_append 500 [] d \<and> d_retries d = 3 \<and> d_priority d = 3) \<and>
   (\<exists>c. completed_tasks (worker_attempt (execute_task ex_randint) ex_clock 0 5
            (start_task ex_clock 0 (snd (hd (task_queue (ex_job_failed 2))))) TaskScheduler_init) =
            deque_append 1000 [] c \<and> d_retries (c_task c) = 2 \<and> d_priority (c_task c) = 3)"
proof -
  let ?t1 = "snd (hd (task_queue (ex_job_failed 1)))" and ?t2 = "snd (hd (task_queue (ex_job_failed 2)))"
  have q1: "map (\<lambda>e. (fst e, priority (snd e), retries (snd e))) (task_queue (ex_job_failed 1)) = [(5, 4, 1)]"
    unfolding ex_job_failed_def by code_simp
  have q2: "map (\<lambda>e. (fst e, priority (snd e), retries (snd e))) (task_queue (ex_job_failed 2)) = [(5, 3, 2)]"
    unfolding ex_job_failed_def by code_simp
  have m1: "(5, ?t1) \<in> set (task_queue (ex_job_failed 1))"
    unfolding ex_job_failed_def by code_simp
  have m2: "(5, ?t2) \<in> set (task_queue (ex_job_failed 2))"
    unfolding ex_job_failed_def by code_simp
  have r: "retries ?t1 = 1" "retries ?t2 = 2" "priority ?t1 = 4" "priority ?t2 = 3"
    unfolding ex_job_failed_def by code_simp+
  have e: "ex_raises (start_task ex_clock 0 ?t1) = Inl ''boom''"
      "ex_raises (start_task ex_clock 0 ?t2) = Inl ''boom''"
    by (simp_all add: ex_raises_def)
  obtain res where ok: "execute_task ex_randint (start_task ex_clock 0 ?t2) = Inr res"
    using execute_task_Inr by blast
  have i: "task_queue TaskScheduler_init = []" "failed_tasks TaskScheduler_init = []"
     "completed_tasks TaskScheduler_init = []"
    by (simp_all add: TaskScheduler_init_def)
  have p: "(1::int) \<le> 5" by simp
  note a = queued_priority_follows_retries [OF reachable_ex_job_failed m1 p]
  note b = queued_priority_follows_retries [OF reachable_ex_job_failed m2 p]
  have a1: "priority ?t1 = max 1 (5 - retries ?t1)" using a by blast
  have b1: "priority ?t2 = max 1 (5 - retries ?t2)" using b by blast
  have lt: "retries ?t1 < 2" using r(1) by simp
  have a2: "\<exists>t'. task_queue (worker_attempt ex_raises ex_clock 0 5
            (start_task ex_clock 0 ?t1) TaskScheduler_init) = [(5, t')] \<and>
         retries t' = 2 \<and> priority t' = 3"
  proof -
    from a e(1) lt obtain t' where
      "task_queue (worker_attempt ex_raises ex_clock 0 5 (start_task ex_clock 0 ?t1) TaskScheduler_init)
         = task_queue TaskScheduler_init @ [(5, t')]"
      "retries t' = retries ?t1 + 1" "priority t' = max 1 (5 - retries t')"
      by blast
    then show ?thesis using r(1) i(1) by simp
  qed
  have b2: "\<exists>d. failed_tasks (worker_attempt ex_raises ex_clock 0 5
            (start_task ex_clock 0 ?t2) TaskScheduler_init) =
            deque_append 500 [] d \<and> d_retries d = 3 \<and> d_priority d = 3"
  proof -
    from b e(2) r(2) obtain d where
      "failed_tasks (worker_attempt ex_raises ex_clock 0 5 (start_task ex_clock 0 ?t2) TaskScheduler_init)
         = deque_append 500 (failed_tasks TaskScheduler_init) d"
      "d_retries d = 3" "d_priority d = max 1 (5 - 2)"
      by blast
    then show ?thesis using i(2) by auto
  qed
  have c2: "\<exists>c. completed_tasks (worker_attempt (execute_task ex_randint) ex_clock 0 5
            (start_task ex_clock 0 ?t2) TaskScheduler_init) =
            deque_append 1000 [] c \<and> d_retries (c_task c) = 2 \<and> d_priority (c_task c) = 3"
  proof -
    from b ok obtain c where
      "completed_tasks (worker_attempt (execute_task ex_randint) ex_clock 0 5
          (start_task ex_clock 0 ?t2) TaskScheduler_init)
         = deque_append 1000 (completed_tasks TaskScheduler_init) c"
      "d_retries (c_task c) = retries ?t2" "d_priority (c_task c) = priority ?t2"
      by blast
    then show ?thesis using i(3) r(2,4) by auto
  qed
  show ?thesis using q1 q2 a1 b1 a2 b2 c2 by blast
qed

text \<open>
  The claim C7 as it is written fails: \<open>ex_job\<close> is submitted with priority 5;
  after its third failure the record has priority 3 and \<open>retries = 3\<close>, and
  \<open>max 1 (5 - 3) = 2\<close>.
\<close>

theorem failed_record_priority_not_formula:
  "map fst (task_queue ex_job) = [5] \<and>
   map (\<lambda>d. (d_priority d, d_retries d, d_status d)) (failed_tasks (ex_job_failed 3)) = [(3, 3, ''failed'')] \<and>
   (3::int) \<noteq> max 1 (5 - 3)"
  unfolding ex_job_failed_def by code_simp

subsection \<open>The delay gate\<close>

text \<open>
  C9 (as amended). Whenever a run of the worker's loop hands a task to the task
  body, the iteration that did so has read the clock at the gate of line 80 and
  the reading was at or after the task's scheduled time. \<open>started_at\<close> is the
  next reading of the clock (line 86): it is not earlier than the scheduled time
  if the clock did not go back between the two readings.
\<close>

theorem dispatch_passes_the_gate:
  assumes "Dispatched t1 \<in> set (fst (worker_function hs clks w n s))"
  shows "\<exists>i<n. scheduled_time t1 \<le> clks i 0 \<and> started_at t1 = Some (clks i 1) \<and>
           status t1 = ''running'' \<and>
           (clks i 0 \<le> clks i 1 \<longrightarrow> scheduled_time t1 \<le> clks i 1)"
proof -
  from worker_function_dispatched [OF assms] obtain i where
    i: "i < n" "scheduled_time t1 \<le> clks i 0" "started_at t1 = Some (clks i 1)"
       "status t1 = ''running''" by blast
  have "clks i 0 \<le> clks i 1 \<longrightarrow> scheduled_time t1 \<le> clks i 1" using i(2) by simp
  then show ?thesis using i by blast
qed

theorem dispatch_passes_the_gate_witness:
  "fst (worker_function (\<lambda>i. execute_task ex_randint) ex_clocks 0 2 ex_delayed) =
     [Deferred (snd (hd (task_queue ex_delayed))),
      Dispatched (start_task (ex_clocks 1) 0 (snd (hd (task_queue ex_delayed))))] \<and>
   scheduled_time (snd (hd (task_queue ex_delayed))) = 102 \<and>
   started_at (start_task (ex_clocks 1) 0 (snd (hd (task_queue ex_delayed)))) = Some 103 \<and>
   scheduled_time (start_task (ex_clocks 1) 0 (snd (hd (task_queue ex_delayed)))) \<le> 103"
proof -
  let ?t1 = "start_task (ex_clocks 1) 0 (snd (hd (task_queue ex_delayed)))"
  have ev: "fst (worker_function (\<lambda>i. execute_task ex_randint) ex_clocks 0 2 ex_delayed) =
     [Deferred (snd (hd (task_queue ex_delayed))), Dispatched ?t1]"
    by code_simp
  have h: "Dispatched ?t1 \<in> set (fst (worker_function (\<lambda>i. execute_task ex_randint) ex_clocks 0 2 ex_delayed))"
    unfolding ev by simp
  have s: "scheduled_time (snd (hd (task_queue ex_delayed))) = 102" by code_simp
  have c: "ex_clocks 0 0 = 100" "ex_clocks 1 0 = 103" "ex_clocks 1 1 = 103"
    by (simp_all add: ex_clocks_def)
  from dispatch_passes_the_gate [OF h] obtain i where
    i: "i < 2" "scheduled_time ?t1 \<le> ex_clocks i 0" "started_at ?t1 = Some (ex_clocks i 1)"
       "ex_clocks i 0 \<le> ex_clocks i 1 \<longrightarrow> scheduled_time ?t1 \<le> ex_clocks i 1"
    by blast
  have "i = 0 \<or> i = 1" using i(1) by auto
  then have i1: "i = 1" using i(2) s c by auto
  have a: "started_at ?t1 = Some 103" using i(3) i1 c by simp
  have b: "scheduled_time ?t1 \<le> 103" using i(4) i1 c by simp
  show ?thesis using ev s a b by blast
qed

text \<open>
  The claim C9 as it is written fails: \<^verbatim>\<open>time.time()\<close> is the wall clock and may go
  back. The task of \<open>ex_delayed\<close> is scheduled at 102; an iteration that reads
  102 at the gate and 50 at line 86 dispatches it with \<open>started_at = 50\<close>.
\<close>

theorem started_at_before_scheduled_time:
  "fst (worker_function (\<lambda>i. execute_task ex_randint) (\<lambda>i. ex_clock_back) 0 1 ex_delayed) =
     [Dispatched (start_task ex_clock_back 0 (snd (hd (task_queue ex_delayed))))] \<and>
   scheduled_time (start_task ex_clock_back 0 (snd (hd (task_queue ex_delayed)))) = 102 \<and>
   started_at (start_task ex_clock_back 0 (snd (hd (task_queue ex_delayed)))) = Some 50 \<and>
   status (start_task ex_clock_back 0 (snd (hd (task_queue ex_delayed)))) = ''running'' \<and>
   (50::real) < 102"
  by code_simp

end
